theory Spec2Isabelle
  imports Main "HOL-Library.Sublist"
begin

section \<open>Python values used by the notebook\<close>

text \<open>
  The exceptions that the modelled Python expressions can raise. A call that raises is
  the value \<open>Inl e\<close>; a call that returns \<open>v\<close> is \<open>Inr v\<close>.
\<close>

datatype error =
  IndexError | KeyError | ZeroDivisionError | ValueError | NameError | AttributeError | OSError

text \<open>
  Reading a global name: \<open>None\<close> stands for a name that no cell has bound yet, and
  reading it raises NameError.
\<close>

definition read :: "'a option \<Rightarrow> error + 'a" where
  "read x = (case x of None \<Rightarrow> Inl NameError | Some v \<Rightarrow> Inr v)"

text \<open>
  A Python \<open>dict\<close> keeps its keys in insertion order and holds each key once. It is an
  association list in that order; \<open>is_dict\<close> says that no key occurs twice.
\<close>

type_synonym ('k, 'v) dict = "('k \<times> 'v) list"

definition is_dict :: "('k, 'v) dict \<Rightarrow> bool" where
  "is_dict d = distinct (map fst d)"

definition keys :: "('k, 'v) dict \<Rightarrow> 'k list" where
  "keys d = map fst d"

text \<open>\<open>d[k]\<close>: the value stored with \<open>k\<close>, KeyError when \<open>k\<close> is not a key.\<close>

definition getitem :: "('k, 'v) dict \<Rightarrow> 'k \<Rightarrow> error + 'v" where
  "getitem d k = (case map_of d k of None \<Rightarrow> Inl KeyError | Some v \<Rightarrow> Inr v)"

text \<open>\<open>xs[0]\<close> on a list: its first element, IndexError on the empty list.\<close>

definition first :: "'a list \<Rightarrow> error + 'a" where
  "first xs = (case xs of [] \<Rightarrow> Inl IndexError | x # _ \<Rightarrow> Inr x)"

text \<open>
  \<open>{k: f(k) for k in ks}\<close> over keys that are pairwise different: the entries are built
  in the order of \<open>ks\<close>, and the first \<open>f(k)\<close> that raises ends the comprehension.
\<close>

fun dict_comp :: "'k list \<Rightarrow> ('k \<Rightarrow> error + 'w) \<Rightarrow> error + ('k, 'w) dict" where
  "dict_comp [] f = Inr []"
| "dict_comp (k # ks) f =
     (case f k of
        Inl e \<Rightarrow> Inl e
      | Inr w \<Rightarrow> (case dict_comp ks f of Inl e \<Rightarrow> Inl e | Inr d \<Rightarrow> Inr ((k, w) # d)))"

text \<open>\<open>sum(xss, [])\<close>: the lists of \<open>xss\<close> appended from left to right.\<close>

definition sum_lists :: "'a list list \<Rightarrow> 'a list" where
  "sum_lists xss = foldl (@) [] xss"

text \<open>\<open>a // b\<close> on Python's unbounded integers: floor division, ZeroDivisionError for \<open>b = 0\<close>.\<close>

definition floordiv :: "int \<Rightarrow> int \<Rightarrow> error + int" where
  "floordiv a b = (if b = 0 then Inl ZeroDivisionError else Inr (a div b))"

text \<open>
  \<open>range(start, stop, step)\<close> as the list of its elements; ValueError for a zero step.
\<close>

definition py_range :: "int \<Rightarrow> int \<Rightarrow> int \<Rightarrow> error + int list" where
  "py_range start stop step =
     (if step = 0 then Inl ValueError
      else if 0 < step then
        Inr (map (\<lambda>j. start + int j * step) [0 ..< nat ((stop - start + step - 1) div step)])
      else
        Inr (map (\<lambda>j. start + int j * step) [0 ..< nat ((start - stop - step - 1) div (- step))]))"

text \<open>
  \<open>t[i:j]\<close>: a negative bound counts from the end, and each bound is clamped to the
  list, so a slice never raises.
\<close>

definition slice_bound :: "'a list \<Rightarrow> int \<Rightarrow> nat" where
  "slice_bound t i =
     (if i < 0 then nat (max 0 (int (length t) + i)) else min (nat i) (length t))"

definition py_slice :: "'a list \<Rightarrow> int \<Rightarrow> int \<Rightarrow> 'a list" where
  "py_slice t i j = take (slice_bound t j - slice_bound t i) (drop (slice_bound t i) t)"

section \<open>group_texts\<close>

text \<open>
  \<^verbatim>\<open>
  def group_texts(examples):
      concatenated_examples = {k: sum(examples[k], []) for k in examples.keys()}
      total_length = len(concatenated_examples[list(examples.keys())[0]])
      total_length = (total_length // max_seq_length) * max_seq_length
      result = {
          k: [t[i: i + max_seq_length] for i in range(0, total_length, max_seq_length)]
          for k, t in concatenated_examples.items()
      }
      return result
  \<close>
  \<open>max_seq_length\<close> is a global of the notebook; the model takes its binding as its
  first argument (\<open>None\<close> when the name is not bound). Each line of the body is one
  step, and the first step that raises ends the call with that exception.
\<close>

definition chunk :: "int \<Rightarrow> int list \<Rightarrow> 'a list \<Rightarrow> 'a list list" where
  "chunk max_seq_length starts t = map (\<lambda>i. py_slice t i (i + max_seq_length)) starts"

definition group_texts :: "int option \<Rightarrow> ('k, 'a list list) dict \<Rightarrow> error + ('k, 'a list list) dict" where
  "group_texts max_seq_length examples =
     (case dict_comp (keys examples)
             (\<lambda>k. case getitem examples k of Inl e \<Rightarrow> Inl e | Inr v \<Rightarrow> Inr (sum_lists v)) of
        Inl e \<Rightarrow> Inl e
      | Inr concatenated_examples \<Rightarrow>
     (case first (keys examples) of
        Inl e \<Rightarrow> Inl e
      | Inr k0 \<Rightarrow>
     (case getitem concatenated_examples k0 of
        Inl e \<Rightarrow> Inl e
      | Inr t0 \<Rightarrow>
     (case read max_seq_length of
        Inl e \<Rightarrow> Inl e
      | Inr m \<Rightarrow>
     (case floordiv (int (length t0)) m of
        Inl e \<Rightarrow> Inl e
      | Inr q \<Rightarrow>
     (let total_length = q * m in
      case py_range 0 total_length m of
        Inl e \<Rightarrow> Inl e
      | Inr starts \<Rightarrow>
          Inr (map (\<lambda>(k, t). (k, chunk m starts t)) concatenated_examples)))))))"

text \<open>
  The first value of \<open>total_length\<close> in the body,
  \<open>len(concatenated_examples[list(examples.keys())[0]])\<close>: the number of tokens that
  the lists of the first key hold together, IndexError on the empty dict.
\<close>

definition first_total_length :: "('k, 'a list list) dict \<Rightarrow> error + nat" where
  "first_total_length examples =
     (case first (keys examples) of
        Inl e \<Rightarrow> Inl e
      | Inr k0 \<Rightarrow>
          (case getitem examples k0 of Inl e \<Rightarrow> Inl e | Inr v \<Rightarrow> Inr (length (sum_lists v))))"

text \<open>
  \<open>d == d'\<close> on dicts: the same keys with the same values, whatever the order of
  insertion. Two calls have the same outcome when they raise the same exception or
  return dicts that are equal in this sense.
\<close>

definition dict_eq :: "('k, 'v) dict \<Rightarrow> ('k, 'v) dict \<Rightarrow> bool" where
  "dict_eq d d' = (set d = set d')"

definition same_outcome :: "error + ('k, 'v) dict \<Rightarrow> error + ('k, 'v) dict \<Rightarrow> bool" where
  "same_outcome r r' =
     (case r of
        Inl e \<Rightarrow> (case r' of Inl e' \<Rightarrow> e = e' | Inr d' \<Rightarrow> False)
      | Inr d \<Rightarrow> (case r' of Inl e' \<Rightarrow> False | Inr d' \<Rightarrow> dict_eq d d'))"

section \<open>The vendored-source patch of reset-lib.sh\<close>

text \<open>
  \<^verbatim>\<open>sed -i "s/from collections import/from collections.abc import/" attrdict/attrdict/*.py\<close>

  The script is one \<open>s\<close> command without flags: on every line of its input, the
  leftmost match of the regular expression is replaced, once. The expression here is
  made of letters and blanks only, so it matches exactly the occurrences of that text;
  the replacement has neither \<open>&\<close> nor a backslash, so it is inserted as it is written.
  With \<open>-i\<close> each file named on the command line is rewritten with the output for it.
  A file is the list of its lines.
\<close>

definition pattern :: string where
  "pattern = ''from collections import''"

definition replacement :: string where
  "replacement = ''from collections.abc import''"

text \<open>\<open>s/pat/rep/\<close> on one line, for a text \<open>pat\<close>: scan from the left for the first match.\<close>

fun substitute :: "string \<Rightarrow> string \<Rightarrow> string \<Rightarrow> string" where
  "substitute pat rep [] = (if pat = [] then rep else [])"
| "substitute pat rep (c # cs) =
     (if prefix pat (c # cs) then rep @ drop (length pat) (c # cs)
      else c # substitute pat rep cs)"

definition sed_line :: "string \<Rightarrow> string" where
  "sed_line l = substitute pattern replacement l"

definition sed_file :: "string list \<Rightarrow> string list" where
  "sed_file ls = map sed_line ls"

section \<open>The notebook pretrain_mlm.ipynb\<close>

text \<open>
  The notebook is a straight line of statements, run cell by cell from the top. The
  libraries it calls are not part of the repository; of their objects the model keeps
  what the notebook's own statements decide:
  \<^item> of a tokenizer, whether its BPE model is the empty one a new
    \<open>ByteLevelBPETokenizer()\<close> starts with or one learned by a training call;
  \<^item> of a dataset, which rows \<open>[from, to)\<close> of the cached corpus it holds and which
    functions have been mapped over it, innermost first;
  \<^item> of the file system, the files the notebook writes.
  Failures of the libraries' surroundings (network, cache, disk) are not modelled.
\<close>

datatype tokenizer_model = Empty_bpe | Trained_bpe

datatype tokenizer = Byte_level_bpe tokenizer_model | Pretrained_fast tokenizer_model

datatype entry = Directory | Config_json string | Tokenizer_json tokenizer_model

type_synonym rows = "nat \<times> nat"

datatype dataset = Raw rows | Mapped string dataset

text \<open>The \<open>split\<close> argument of \<open>load_dataset\<close>: \<open>"train[p%:]"\<close> and \<open>"train[:p%]"\<close>.\<close>

datatype split = From_percent nat | To_percent nat

text \<open>
  What the runs of the notebook take from outside: the number of rows of the cached
  corpus \<open>oscar / unshuffled_deduplicated_<language>\<close>, and the function by which the
  datasets library turns a percentage of a number of rows into a row index.
\<close>

record library =
  num_rows :: nat
  pct_to_abs :: "nat \<Rightarrow> nat \<Rightarrow> nat"

text \<open>
  \<open>load_dataset(..., split=...)\<close>: the percentage is turned into the row index \<open>b\<close>,
  ValueError when \<open>b\<close> is beyond the corpus; \<open>"train[p%:]"\<close> holds the rows from \<open>b\<close>
  on, \<open>"train[:p%]"\<close> the rows before \<open>b\<close>.
\<close>

definition load_dataset :: "library \<Rightarrow> split \<Rightarrow> error + rows" where
  "load_dataset lib sp =
     (case sp of
        From_percent p \<Rightarrow>
          (let b = pct_to_abs lib p (num_rows lib)
           in if num_rows lib < b then Inl ValueError else Inr (b, num_rows lib))
      | To_percent p \<Rightarrow>
          (let b = pct_to_abs lib p (num_rows lib)
           in if num_rows lib < b then Inl ValueError else Inr (0, b)))"

text \<open>\<open>len(ds)\<close> and the row numbers of a raw dataset.\<close>

definition len :: "rows \<Rightarrow> nat" where
  "len r = snd r - fst r"

definition row_set :: "rows \<Rightarrow> nat set" where
  "row_set r = {fst r ..< snd r}"

text \<open>\<open>ds.select(range(n))\<close>: the first \<open>n\<close> rows, IndexError when there are fewer.\<close>

definition select :: "rows \<Rightarrow> nat \<Rightarrow> error + rows" where
  "select r n = (if len r < n then Inl IndexError else Inr (fst r, fst r + n))"

text \<open>\<open>d[k] = v\<close>: a key that is present keeps its place, a new key goes to the end.\<close>

definition setitem :: "('k, 'v) dict \<Rightarrow> 'k \<Rightarrow> 'v \<Rightarrow> ('k, 'v) dict" where
  "setitem d k v =
     (if k \<in> set (keys d) then map (\<lambda>(k', v'). if k' = k then (k', v) else (k', v')) d
      else d @ [(k, v)])"

text \<open>The statements that occur in the cells, and the tokenizer's training call.\<close>

datatype stmt =
    Import string
  | Show
  | Set_language string
  | Set_model_config string
  | Set_model_dir
  | Mkdir_model_dir
  | Load_config
  | Save_config
  | Load_raw_dataset
  | New_tokenizer
  | Def string
  | Train_tokenizer
  | Save_tokenizer
  | Set_max_seq_length int
  | Load_split string split
  | Select string nat
  | Load_tokenizer
  | Map_raw string
  | Map_tokenized string

text \<open>
  The globals of the kernel, the files written, the functions defined and the statements
  run so far.
\<close>

record globals =
  language :: "string option"
  model_config :: "string option"
  model_dir :: "string option"
  config :: "string option"
  raw_dataset :: "(string, rows) dict option"
  tokenizer :: "tokenizer option"
  max_seq_length :: "int option"
  tokenized_datasets :: "(string, dataset) dict option"
  defined :: "string list"
  files :: "string \<rightharpoonup> entry"
  executed :: "stmt list"

definition name_defined :: "globals \<Rightarrow> string \<Rightarrow> error + unit" where
  "name_defined g f = (if f \<in> set (defined g) then Inr () else Inl NameError)"

text \<open>
  One statement. Each equation is headed by the Python it stands for.
\<close>

fun exec :: "library \<Rightarrow> stmt \<Rightarrow> globals \<Rightarrow> error + globals" where
  \<comment> \<open>\<open>import ...\<close>, \<open>from ... import ...\<close>\<close>
  "exec lib (Import m) g = Inr g"
  \<comment> \<open>an expression cell: its value is displayed\<close>
| "exec lib Show g = Inr g"
  \<comment> \<open>\<open>language = "ko"\<close>\<close>
| "exec lib (Set_language v) g = Inr (g\<lparr>language := Some v\<rparr>)"
  \<comment> \<open>\<open>model_config = "roberta-base"\<close>\<close>
| "exec lib (Set_model_config v) g = Inr (g\<lparr>model_config := Some v\<rparr>)"
  \<comment> \<open>\<open>model_dir = model_config + f"-pretrained-{language}"\<close>\<close>
| "exec lib Set_model_dir g =
     (case read (model_config g) of Inl e \<Rightarrow> Inl e | Inr mc \<Rightarrow>
      case read (language g) of Inl e \<Rightarrow> Inl e | Inr l \<Rightarrow>
        Inr (g\<lparr>model_dir := Some (mc @ (''-pretrained-'' @ l))\<rparr>))"
  \<comment> \<open>\<open>Path(model_dir).mkdir(parents=True, exist_ok=True)\<close>\<close>
| "exec lib Mkdir_model_dir g =
     (case read (model_dir g) of Inl e \<Rightarrow> Inl e | Inr d \<Rightarrow>
        Inr (g\<lparr>files := (files g)(d \<mapsto> Directory)\<rparr>))"
  \<comment> \<open>\<open>config = AutoConfig.from_pretrained(model_config)\<close>\<close>
| "exec lib Load_config g =
     (case read (model_config g) of Inl e \<Rightarrow> Inl e | Inr mc \<Rightarrow>
        Inr (g\<lparr>config := Some mc\<rparr>))"
  \<comment> \<open>\<open>config.save_pretrained(f"{model_dir}")\<close>\<close>
| "exec lib Save_config g =
     (case read (config g) of Inl e \<Rightarrow> Inl e | Inr c \<Rightarrow>
      case read (model_dir g) of Inl e \<Rightarrow> Inl e | Inr d \<Rightarrow>
        Inr (g\<lparr>files := (files g)(d @ ''/config.json'' \<mapsto> Config_json c)\<rparr>))"
  \<comment> \<open>\<open>raw_dataset = load_dataset("oscar", f"unshuffled_deduplicated_{language}")\<close>\<close>
| "exec lib Load_raw_dataset g =
     (case read (language g) of Inl e \<Rightarrow> Inl e | Inr l \<Rightarrow>
        Inr (g\<lparr>raw_dataset := Some [(''train'', (0, num_rows lib))]\<rparr>))"
  \<comment> \<open>\<open>tokenizer = ByteLevelBPETokenizer()\<close>\<close>
| "exec lib New_tokenizer g = Inr (g\<lparr>tokenizer := Some (Byte_level_bpe Empty_bpe)\<rparr>)"
  \<comment> \<open>\<open>def f(...): ...\<close>\<close>
| "exec lib (Def f) g = Inr (g\<lparr>defined := defined g @ [f]\<rparr>)"
  \<comment> \<open>\<open>tokenizer.train_from_iterator(batch_iterator(), ...)\<close>\<close>
| "exec lib Train_tokenizer g =
     (case read (tokenizer g) of Inl e \<Rightarrow> Inl e | Inr t \<Rightarrow>
      case name_defined g ''batch_iterator'' of Inl e \<Rightarrow> Inl e | Inr _ \<Rightarrow>
      case t of
        Byte_level_bpe _ \<Rightarrow> Inr (g\<lparr>tokenizer := Some (Byte_level_bpe Trained_bpe)\<rparr>)
      | Pretrained_fast _ \<Rightarrow> Inl AttributeError)"
  \<comment> \<open>\<open>tokenizer.save(f"{model_dir}/tokenizer.json")\<close>\<close>
| "exec lib Save_tokenizer g =
     (case read (tokenizer g) of Inl e \<Rightarrow> Inl e | Inr t \<Rightarrow>
      case read (model_dir g) of Inl e \<Rightarrow> Inl e | Inr d \<Rightarrow>
      case t of
        Byte_level_bpe m \<Rightarrow>
          Inr (g\<lparr>files := (files g)(d @ ''/tokenizer.json'' \<mapsto> Tokenizer_json m)\<rparr>)
      | Pretrained_fast _ \<Rightarrow> Inl AttributeError)"
  \<comment> \<open>\<open>max_seq_length = 128\<close>\<close>
| "exec lib (Set_max_seq_length n) g = Inr (g\<lparr>max_seq_length := Some n\<rparr>)"
  \<comment> \<open>\<open>raw_dataset[name] = load_dataset("oscar", f"unshuffled_deduplicated_{language}", split=...)\<close>\<close>
| "exec lib (Load_split name sp) g =
     (case read (language g) of Inl e \<Rightarrow> Inl e | Inr l \<Rightarrow>
      case load_dataset lib sp of Inl e \<Rightarrow> Inl e | Inr r \<Rightarrow>
      case read (raw_dataset g) of Inl e \<Rightarrow> Inl e | Inr d \<Rightarrow>
        Inr (g\<lparr>raw_dataset := Some (setitem d name r)\<rparr>))"
  \<comment> \<open>\<open>raw_dataset[name] = raw_dataset[name].select(range(n))\<close>\<close>
| "exec lib (Select name n) g =
     (case read (raw_dataset g) of Inl e \<Rightarrow> Inl e | Inr d \<Rightarrow>
      case getitem d name of Inl e \<Rightarrow> Inl e | Inr r \<Rightarrow>
      case select r n of Inl e \<Rightarrow> Inl e | Inr r' \<Rightarrow>
        Inr (g\<lparr>raw_dataset := Some (setitem d name r')\<rparr>))"
  \<comment> \<open>\<open>tokenizer = AutoTokenizer.from_pretrained(f"{model_dir}")\<close>\<close>
| "exec lib Load_tokenizer g =
     (case read (model_dir g) of Inl e \<Rightarrow> Inl e | Inr d \<Rightarrow>
      case files g (d @ ''/tokenizer.json'') of
        Some (Tokenizer_json m) \<Rightarrow> Inr (g\<lparr>tokenizer := Some (Pretrained_fast m)\<rparr>)
      | _ \<Rightarrow> Inl OSError)"
  \<comment> \<open>\<open>tokenized_datasets = raw_dataset.map(f, batched=True, ...)\<close>\<close>
| "exec lib (Map_raw f) g =
     (case read (raw_dataset g) of Inl e \<Rightarrow> Inl e | Inr d \<Rightarrow>
      case name_defined g f of Inl e \<Rightarrow> Inl e | Inr _ \<Rightarrow>
        Inr (g\<lparr>tokenized_datasets := Some (map (\<lambda>(name, r). (name, Mapped f (Raw r))) d)\<rparr>))"
  \<comment> \<open>\<open>tokenized_datasets = tokenized_datasets.map(f, batched=True, ...)\<close>\<close>
| "exec lib (Map_tokenized f) g =
     (case read (tokenized_datasets g) of Inl e \<Rightarrow> Inl e | Inr d \<Rightarrow>
      case name_defined g f of Inl e \<Rightarrow> Inl e | Inr _ \<Rightarrow>
        Inr (g\<lparr>tokenized_datasets := Some (map (\<lambda>(name, ds). (name, Mapped f ds)) d)\<rparr>))"

text \<open>
  Running statements in order: the first one that raises stops the run, and a statement
  that returns is added to those run so far.
\<close>

fun run :: "library \<Rightarrow> stmt list \<Rightarrow> globals \<Rightarrow> error + globals" where
  "run lib [] g = Inr g"
| "run lib (s # ss) g =
     (case exec lib s g of
        Inl e \<Rightarrow> Inl e
      | Inr g' \<Rightarrow> run lib ss (g'\<lparr>executed := executed g' @ [s]\<rparr>))"

text \<open>The code cells, under the headings of the notebook.\<close>

definition cells_setup :: "stmt list" where
  "cells_setup =
     [Import ''jax'', Show,
      Set_language ''ko'',
      Set_model_config ''roberta-base'']"

definition cells_model_configuration :: "stmt list" where
  "cells_model_configuration =
     [Set_model_dir,
      Import ''pathlib'', Mkdir_model_dir,
      Import ''transformers'', Load_config,
      Save_config]"

definition cells_tokenizer :: "stmt list" where
  "cells_tokenizer =
     [Import ''datasets'', Import ''tokenizers'',
      Load_raw_dataset,
      Show,
      Show,
      New_tokenizer,
      Def ''batch_iterator'',
      Save_tokenizer]"

definition cells_split :: "stmt list" where
  "cells_split =
     [Set_max_seq_length 128,
      Load_split ''train'' (From_percent 5),
      Load_split ''validation'' (To_percent 5),
      Show]"

definition cells_preprocess :: "stmt list" where
  "cells_preprocess =
     [Select ''train'' 10000, Select ''validation'' 1000,
      Import ''transformers'', Load_tokenizer,
      Show,
      Def ''tokenize_function'',
      Map_raw ''tokenize_function'',
      Def ''group_texts'',
      Map_tokenized ''group_texts'']"

definition notebook :: "stmt list" where
  "notebook =
     cells_setup @ cells_model_configuration @ cells_tokenizer @ cells_split @ cells_preprocess"

text \<open>The statements that load, tokenize or chunk the data.\<close>

fun pipeline_step :: "stmt \<Rightarrow> bool" where
  "pipeline_step Load_raw_dataset = True"
| "pipeline_step (Load_split name sp) = True"
| "pipeline_step (Map_raw f) = True"
| "pipeline_step (Map_tokenized f) = True"
| "pipeline_step s = False"

text \<open>A kernel that has run nothing yet: no name is bound and no file is written.\<close>

definition fresh_kernel :: globals where
  "fresh_kernel =
     \<lparr>language = None, model_config = None, model_dir = None, config = None,
      raw_dataset = None, tokenizer = None, max_seq_length = None,
      tokenized_datasets = None, defined = [], files = Map.empty, executed = []\<rparr>"

section \<open>Facts about the Python primitives\<close>

lemma sum_lists_acc: "foldl (@) acc xss = acc @ concat xss"
  by (induction xss arbitrary: acc) auto

lemma sum_lists_concat: "sum_lists xss = concat xss"
  by (simp add: sum_lists_def sum_lists_acc)

lemma dict_comp_items:
  "\<forall>(k, v) \<in> set ps. f k = Inr (g v) \<Longrightarrow>
   dict_comp (map fst ps) f = Inr (map (\<lambda>(k, v). (k, g v)) ps)"
  by (induction ps) auto

lemma getitem_member: "is_dict d \<Longrightarrow> (k, v) \<in> set d \<Longrightarrow> getitem d k = Inr v"
  by (simp add: is_dict_def getitem_def)

lemma is_dict_map_values: "is_dict (map (\<lambda>(k, v). (k, g v)) d) = is_dict d"
  by (simp add: is_dict_def case_prod_unfold comp_def)

lemma getitem_map_values:
  assumes "is_dict d" "(k, v) \<in> set d"
  shows "getitem (map (\<lambda>(k, v). (k, g v)) d) k = Inr (g v)"
proof (rule getitem_member)
  show "is_dict (map (\<lambda>(k, v). (k, g v)) d)"
    using assms(1) by (simp add: is_dict_map_values)
  show "(k, g v) \<in> set (map (\<lambda>(k, v). (k, g v)) d)"
    using assms(2) by force
qed

lemma concatenated_examples:
  assumes "is_dict examples"
  shows "dict_comp (keys examples)
           (\<lambda>k. case getitem examples k of Inl e \<Rightarrow> Inl e | Inr v \<Rightarrow> Inr (sum_lists v))
         = Inr (map (\<lambda>(k, v). (k, concat v)) examples)"
  unfolding keys_def
  by (rule dict_comp_items) (auto simp: getitem_member[OF assms] sum_lists_concat)

lemma div_block: "0 < (m::int) \<Longrightarrow> (q * m + m - 1) div m = q"
proof -
  assume m: "0 < m"
  have "(q * m + m - 1) = (m - 1) + q * m" by simp
  also have "\<dots> div m = (m - 1) div m + q"
    using m by simp
  also have "(m - 1) div m = 0" using m by (simp add: div_pos_pos_trivial)
  finally show ?thesis by simp
qed

lemma py_range_blocks:
  assumes "0 < m" "0 \<le> q"
  shows "py_range 0 (q * m) m = Inr (map (\<lambda>j. int j * m) [0 ..< nat q])"
  using assms by (simp add: py_range_def div_block)

lemma py_range_returns: "step \<noteq> 0 \<Longrightarrow> \<exists>starts. py_range start stop step = Inr starts"
  by (simp add: py_range_def)

lemma py_slice_window:
  assumes "0 < m"
  shows "py_slice t (int j * m) (int j * m + m) = take (nat m) (drop (j * nat m) t)"
proof -
  have a: "nat (int j * m) = j * nat m" using assms by (simp add: nat_mult_distrib)
  have b: "nat (int j * m + m) = j * nat m + nat m" using assms
    by (simp add: nat_add_distrib nat_mult_distrib)
  have nn: "\<not> int j * m < 0" "\<not> int j * m + m < 0" using assms
    by (simp_all add: not_less add_nonneg_nonneg)
  have "py_slice t (int j * m) (int j * m + m) =
     take (min (j * nat m + nat m) (length t) - min (j * nat m) (length t))
       (drop (min (j * nat m) (length t)) t)"
    unfolding py_slice_def slice_bound_def using nn by (simp only: if_False a b)
  also have "\<dots> = take (nat m) (drop (j * nat m) t)"
    by (cases "j * nat m \<le> length t") (auto simp: min_def)
  finally show ?thesis .
qed

lemma chunk_windows:
  assumes "0 < m"
  shows "chunk (int m) (map (\<lambda>j. int j * int m) [0 ..< q]) t
         = map (\<lambda>j. take m (drop (j * m) t)) [0 ..< q]"
  using assms py_slice_window[of "int m" t] by (simp add: chunk_def comp_def)

lemma concat_windows:
  "concat (map (\<lambda>j. take m (drop (j * m) t)) [0 ..< q]) = take (q * m) t"
proof (induction q)
  case 0
  show ?case by simp
next
  case (Suc q)
  have "take (q * m) t @ take m (drop (q * m) t) = take (q * m + m) t"
    by (simp add: take_add)
  with Suc show ?case by (simp add: add.commute)
qed

section \<open>What group_texts computes\<close>

text \<open>
  For a positive block size and a non-empty dict, the call returns, and the value of
  every key is cut into the windows \<open>[j * m, j * m + m)\<close> for \<open>j\<close> below the number of
  whole blocks of the first key's concatenation.
\<close>

lemma group_texts_windows:
  assumes d: "is_dict examples" and ne: "examples = (k0, v0) # rest" and m: "0 < m"
  shows "group_texts (Some (int m)) examples =
           Inr (map (\<lambda>(k, v). (k, map (\<lambda>j. take m (drop (j * m) (concat v)))
                                        [0 ..< length (concat v0) div m])) examples)"
proof -
  let ?L = "length (concat v0)"
  have c: "dict_comp (keys examples)
             (\<lambda>k. case getitem examples k of Inl e \<Rightarrow> Inl e | Inr v \<Rightarrow> Inr (sum_lists v))
           = Inr (map (\<lambda>(k, v). (k, concat v)) examples)"
    by (rule concatenated_examples[OF d])
  have f: "first (keys examples) = Inr k0"
    by (simp add: first_def keys_def ne)
  have g: "getitem (map (\<lambda>(k, v). (k, concat v)) examples) k0 = Inr (concat v0)"
    by (rule getitem_map_values[OF d]) (simp add: ne)
  have q: "floordiv (int ?L) (int m) = Inr (int (?L div m))"
    using m by (simp add: floordiv_def zdiv_int)
  have r: "py_range 0 (int (?L div m) * int m) (int m)
           = Inr (map (\<lambda>j. int j * int m) [0 ..< ?L div m])"
    using py_range_blocks[of "int m" "int (?L div m)"] m by simp
  have "group_texts (Some (int m)) examples =
          Inr (map (\<lambda>(k, t). (k, map (\<lambda>j. take m (drop (j * m) t)) [0 ..< ?L div m]))
                 (map (\<lambda>(k, v). (k, concat v)) examples))"
    by (simp add: group_texts_def read_def c f g q r chunk_windows[OF m])
  then show ?thesis
    by (simp add: case_prod_unfold comp_def)
qed

text \<open>
  For a non-empty dict the outcome is fixed by the binding of the block size, the number
  of tokens of the first entry and the entries themselves.
\<close>

lemma group_texts_by_first_entry:
  assumes d: "is_dict examples" and ne: "examples = (k0, v0) # rest"
  shows "group_texts block_size examples =
     (case read block_size of
        Inl e \<Rightarrow> Inl e
      | Inr m \<Rightarrow>
     (case floordiv (int (length (concat v0))) m of
        Inl e \<Rightarrow> Inl e
      | Inr q \<Rightarrow>
     (case py_range 0 (q * m) m of
        Inl e \<Rightarrow> Inl e
      | Inr starts \<Rightarrow>
          Inr (map (\<lambda>(k, v). (k, chunk m starts (concat v))) examples))))"
proof -
  have c: "dict_comp (keys examples)
             (\<lambda>k. case getitem examples k of Inl e \<Rightarrow> Inl e | Inr v \<Rightarrow> Inr (sum_lists v))
           = Inr (map (\<lambda>(k, v). (k, concat v)) examples)"
    by (rule concatenated_examples[OF d])
  have f: "first (keys examples) = Inr k0"
    by (simp add: first_def keys_def ne)
  have g: "getitem (map (\<lambda>(k, v). (k, concat v)) examples) k0 = Inr (concat v0)"
    by (rule getitem_map_values[OF d]) (simp add: ne)
  show ?thesis
    by (auto simp add: group_texts_def c f g Let_def split: sum.splits prod.splits)
qed

lemma first_total_length_entry:
  assumes d: "is_dict examples" and ne: "examples = (k0, v0) # rest"
  shows "first_total_length examples = Inr (length (concat v0))"
proof -
  have "getitem examples k0 = Inr v0"
    by (rule getitem_member[OF d]) (simp add: ne)
  then show ?thesis
    by (simp add: first_total_length_def first_def keys_def ne sum_lists_concat)
qed

lemma dict_eq_map_values:
  "dict_eq d d' \<Longrightarrow> dict_eq (map h d) (map h d')"
  by (simp add: dict_eq_def)

section \<open>Facts about the substitution\<close>

lemma substitute_no_match: "\<not> sublist pat l \<Longrightarrow> substitute pat rep l = l"
proof (induction l)
  case Nil
  then have "pat \<noteq> []" by auto
  then show ?case by simp
next
  case (Cons c cs)
  then have "\<not> prefix pat (c # cs)" and "\<not> sublist pat cs"
    by (auto simp: sublist_Cons_right)
  with Cons.IH show ?case by simp
qed

lemma not_sublist_butlast: "pat \<noteq> [] \<Longrightarrow> \<not> sublist pat (butlast pat)"
proof
  assume ne: "pat \<noteq> []" and sub: "sublist pat (butlast pat)"
  from sub have a: "length pat \<le> length (butlast pat)" by (rule sublist_length_le)
  have b: "length (butlast pat) = length pat - 1" by simp
  have c: "0 < length pat" using ne by simp
  from a b c show False by arith
qed

lemma substitute_match:
  assumes "pat \<noteq> []"
  shows "sublist pat l \<Longrightarrow>
         \<exists>pre post. l = pre @ pat @ post \<and> \<not> sublist pat (pre @ butlast pat) \<and>
                     substitute pat rep l = pre @ rep @ post"
proof (induction l)
  case Nil
  with assms show ?case by simp
next
  case (Cons c cs)
  show ?case
  proof (cases "prefix pat (c # cs)")
    case True
    then obtain post where p: "c # cs = pat @ post" by (auto simp: prefix_def)
    have "substitute pat rep (c # cs) = rep @ drop (length pat) (c # cs)"
      using True by simp
    then have "substitute pat rep (c # cs) = rep @ post" by (simp only: p append_eq_conv_conj) simp
    with p not_sublist_butlast[OF assms] show ?thesis
      by (intro exI[of _ "[]"] exI[of _ post]) simp
  next
    case False
    with Cons.prems have "sublist pat cs" by (simp add: sublist_Cons_right)
    then obtain pre post where cs: "cs = pre @ pat @ post"
      and first: "\<not> sublist pat (pre @ butlast pat)"
      and sub: "substitute pat rep cs = pre @ rep @ post"
      using Cons.IH by blast
    have "\<not> prefix pat (c # pre @ butlast pat)"
    proof
      assume a: "prefix pat (c # pre @ butlast pat)"
      have "c # cs = (c # pre @ butlast pat) @ (last pat # post)"
        using cs assms by simp
      then have "prefix (c # pre @ butlast pat) (c # cs)" by (metis prefixI)
      with a have "prefix pat (c # cs)" by (rule prefix_order.trans)
      with False show False by simp
    qed
    with first have "\<not> sublist pat ((c # pre) @ butlast pat)"
      by (simp add: sublist_Cons_right)
    moreover have "c # cs = (c # pre) @ pat @ post" using cs by simp
    moreover have "substitute pat rep (c # cs) = (c # pre) @ rep @ post"
      using False sub by simp
    ultimately show ?thesis by blast
  qed
qed

section \<open>Claims about group_texts\<close>

text \<open>
  C2. Let \<open>examples\<close> be a dict in which the lists of every key concatenate to the same
  total length \<open>L\<close>, and let the block size be 128. Then for every key \<open>k\<close> of
  \<open>examples\<close> the call returns a dict with the keys of \<open>examples\<close> that maps \<open>k\<close>
  to exactly \<open>L div 128\<close> blocks, each of length exactly 128.
\<close>

theorem group_texts_block_count:
  assumes d: "is_dict examples"
    and same: "\<forall>(k, v) \<in> set examples. length (concat v) = L"
    and kv: "(k, v) \<in> set examples"
  shows "\<exists>result blocks. group_texts (Some 128) examples = Inr result \<and>
           keys result = keys examples \<and> getitem result k = Inr blocks \<and>
           length blocks = L div 128 \<and> (\<forall>b \<in> set blocks. length b = 128)"
proof -
  obtain k0 v0 rest where e: "examples = (k0, v0) # rest"
    using kv by (cases examples) auto
  have L0: "length (concat v0) = L" using same e by auto
  have Lk: "length (concat v) = L" using same kv by auto
  let ?w = "\<lambda>t. map (\<lambda>j. take 128 (drop (j * 128) t)) [0 ..< L div 128]"
  let ?result = "map (\<lambda>(k, v). (k, ?w (concat v))) examples"
  have r: "group_texts (Some 128) examples = Inr ?result"
    using group_texts_windows[OF d e, of 128] by (simp add: L0)
  have ks: "keys ?result = keys examples"
    by (simp add: keys_def case_prod_unfold comp_def)
  have g: "getitem ?result k = Inr (?w (concat v))"
    using getitem_map_values[OF d kv, of "\<lambda>v. ?w (concat v)"] by simp
  have len: "length (?w (concat v)) = L div 128" by simp
  have each: "\<forall>b \<in> set (?w (concat v)). length b = 128"
  proof
    fix b assume "b \<in> set (?w (concat v))"
    then obtain j where j: "j < L div 128" and b: "b = take 128 (drop (j * 128) (concat v))"
      by auto
    from j have "j * 128 + 128 \<le> L" by simp
    then show "length b = 128" using b Lk by simp
  qed
  show ?thesis using r ks g len each by blast
qed

theorem group_texts_block_count_witness:
  "\<exists>result blocks.
     group_texts (Some 128) [(''input_ids'', [replicate 100 (7::int), replicate 156 8]),
                      (''attention_mask'', [replicate 256 1])] = Inr result \<and>
     keys result = [''input_ids'', ''attention_mask''] \<and>
     getitem result ''attention_mask'' = Inr blocks \<and> length blocks = 2 \<and>
     (\<forall>b \<in> set blocks. length b = 128)"
  using group_texts_block_count[of
      "[(''input_ids'', [replicate 100 (7::int), replicate 156 8]),
        (''attention_mask'', [replicate 256 1])]" 256 "''attention_mask''" "[replicate 256 1]"]
  by (simp add: is_dict_def keys_def)

text \<open>
  C3. Under the same hypothesis on \<open>L\<close>, and for every positive block size \<open>m\<close> (the
  notebook's is 128): for every key, the blocks returned for it, concatenated, are the
  first \<open>(L div m) * m\<close> elements of the concatenation of that key's input lists, in
  their order; the concatenation is these blocks followed by its last \<open>L mod m\<close>
  elements, which are the only ones left out.
\<close>

theorem group_texts_concat_prefix:
  assumes d: "is_dict examples" and m: "0 < m"
    and same: "\<forall>(k, v) \<in> set examples. length (concat v) = L"
    and kv: "(k, v) \<in> set examples"
  shows "\<exists>result blocks. group_texts (Some (int m)) examples = Inr result \<and>
           getitem result k = Inr blocks \<and>
           concat blocks = take ((L div m) * m) (concat v) \<and>
           concat v = concat blocks @ drop (L - L mod m) (concat v) \<and>
           length (drop (L - L mod m) (concat v)) = L mod m"
proof -
  obtain k0 v0 rest where e: "examples = (k0, v0) # rest"
    using kv by (cases examples) auto
  have L0: "length (concat v0) = L" using same e by auto
  have Lk: "length (concat v) = L" using same kv by auto
  let ?w = "\<lambda>t. map (\<lambda>j. take m (drop (j * m) t)) [0 ..< L div m]"
  let ?result = "map (\<lambda>(k, v). (k, ?w (concat v))) examples"
  have r: "group_texts (Some (int m)) examples = Inr ?result"
    using group_texts_windows[OF d e m] by (simp add: L0)
  have g: "getitem ?result k = Inr (?w (concat v))"
    using getitem_map_values[OF d kv, of "\<lambda>v. ?w (concat v)"] by simp
  have c: "concat (?w (concat v)) = take ((L div m) * m) (concat v)"
    by (rule concat_windows)
  have dm: "(L div m) * m = L - L mod m"
    by (simp add: minus_mod_eq_div_mult)
  have a: "concat v = concat (?w (concat v)) @ drop (L - L mod m) (concat v)"
    by (simp only: c dm append_take_drop_id)
  have l: "length (drop (L - L mod m) (concat v)) = L mod m"
    using Lk by simp
  show ?thesis using r g c a l by blast
qed

theorem group_texts_concat_prefix_witness:
  "\<exists>result blocks.
     group_texts (Some 3) [(''input_ids'', [[1, 2, 3, 4 :: int], [5, 6, 7, 8]]),
                    (''special_tokens_mask'', [[1, 0, 0, 1], [1, 0, 0, 1]])] = Inr result \<and>
     getitem result ''input_ids'' = Inr blocks \<and>
     concat blocks = [1, 2, 3, 4, 5, 6] \<and>
     [1, 2, 3, 4, 5, 6, 7, 8] = concat blocks @ [7, 8]"
  using group_texts_concat_prefix[of
      "[(''input_ids'', [[1, 2, 3, 4 :: int], [5, 6, 7, 8]]),
        (''special_tokens_mask'', [[1, 0, 0, 1], [1, 0, 0, 1]])]" 3 8
      "''input_ids''" "[[1, 2, 3, 4], [5, 6, 7, 8]]"]
  by (simp add: is_dict_def)

text \<open>
  C4. The claim that group_texts returns normally on every dict, the empty one included,
  fails: on the empty dict \<open>list(examples.keys())[0]\<close> raises IndexError.
\<close>

theorem group_texts_empty_dict_raises:
  "group_texts (Some 128) ([] :: (string, int list list) dict) = Inl IndexError"
  by (simp add: group_texts_def keys_def first_def)

text \<open>
  C4, amended. On every non-empty dict, whatever its lists (empty ones included), and
  for the notebook's block size 128 as for every block size other than zero, group_texts
  returns a dict with the keys of its input.
\<close>

theorem group_texts_nonempty_returns:
  assumes d: "is_dict examples" and ne: "examples \<noteq> []" and m: "m \<noteq> 0"
  shows "\<exists>result. group_texts (Some m) examples = Inr result \<and> keys result = keys examples"
proof -
  obtain k0 v0 rest where e: "examples = (k0, v0) # rest"
    using ne by (cases examples) auto
  have c: "dict_comp (keys examples)
             (\<lambda>k. case getitem examples k of Inl e \<Rightarrow> Inl e | Inr v \<Rightarrow> Inr (sum_lists v))
           = Inr (map (\<lambda>(k, v). (k, concat v)) examples)"
    by (rule concatenated_examples[OF d])
  have f: "first (keys examples) = Inr k0"
    by (simp add: first_def keys_def e)
  have g: "getitem (map (\<lambda>(k, v). (k, concat v)) examples) k0 = Inr (concat v0)"
    by (rule getitem_map_values[OF d]) (simp add: e)
  have q: "floordiv (int (length (concat v0))) m = Inr (int (length (concat v0)) div m)"
    using m by (simp add: floordiv_def)
  obtain starts where
    r: "py_range 0 (int (length (concat v0)) div m * m) m = Inr starts"
    using py_range_returns[OF m] by blast
  have "group_texts (Some m) examples =
          Inr (map (\<lambda>(k, t). (k, chunk m starts t)) (map (\<lambda>(k, v). (k, concat v)) examples))"
    by (simp add: group_texts_def read_def c f g q r)
  then show ?thesis by (simp add: keys_def case_prod_unfold comp_def)
qed

theorem group_texts_nonempty_returns_witness:
  "\<exists>result. group_texts (Some 128) [(''input_ids'', ([] :: int list list)), (''attention_mask'', [[]])]
               = Inr result \<and>
            keys result = [''input_ids'', ''attention_mask'']"
  using group_texts_nonempty_returns[of
      "[(''input_ids'', ([] :: int list list)), (''attention_mask'', [[]])]" 128]
  by (simp add: is_dict_def keys_def)

text \<open>
  C10. The total length that group_texts measures is that of the first key's
  concatenation (the common length \<open>L\<close> when all keys agree). When it is below the block
  size 128, the call returns, and every key is mapped to the empty list of blocks: no
  input token is in the result.
\<close>

theorem group_texts_short_input:
  assumes d: "is_dict examples" and e: "examples = (k0, v0) # rest"
    and short: "length (concat v0) < 128"
  shows "group_texts (Some 128) examples = Inr (map (\<lambda>(k, v). (k, [])) examples)"
  using group_texts_windows[OF d e, of 128] short by simp

theorem group_texts_short_input_witness:
  "group_texts (Some 128) [(''input_ids'', [[5, 6, 7 :: int], [8, 9]]), (''attention_mask'', [[1, 1, 1], [1, 1]])]
     = Inr [(''input_ids'', []), (''attention_mask'', [])]"
  using group_texts_short_input[of
      "[(''input_ids'', [[5, 6, 7 :: int], [8, 9]]), (''attention_mask'', [[1, 1, 1], [1, 1]])]"
      "''input_ids''" "[[5, 6, 7], [8, 9]]" "[(''attention_mask'', [[1, 1, 1], [1, 1]])]"]
  by (simp add: is_dict_def)

text \<open>
  C5. The claim that two evaluations on equal inputs return equal results fails for
  dicts that are equal but list their keys in another order: the block count is taken
  from the key that comes first, so with 5 tokens under \<open>a\<close>, 3 under \<open>b\<close> and
  block size 2 the two orders give results that are not equal.
\<close>

theorem group_texts_key_order_matters:
  "is_dict [(''a'', [[1, 2, 3, 4, 5 :: int]]), (''b'', [[6, 7, 8]])] \<and>
   is_dict [(''b'', [[6, 7, 8]]), (''a'', [[1, 2, 3, 4, 5 :: int]])] \<and>
   dict_eq [(''a'', [[1, 2, 3, 4, 5 :: int]]), (''b'', [[6, 7, 8]])]
           [(''b'', [[6, 7, 8]]), (''a'', [[1, 2, 3, 4, 5]])] \<and>
   group_texts (Some 2) [(''a'', [[1, 2, 3, 4, 5 :: int]]), (''b'', [[6, 7, 8]])]
     = Inr [(''a'', [[1, 2], [3, 4]]), (''b'', [[6, 7], [8]])] \<and>
   group_texts (Some 2) [(''b'', [[6, 7, 8]]), (''a'', [[1, 2, 3, 4, 5 :: int]])]
     = Inr [(''b'', [[6, 7]]), (''a'', [[1, 2]])] \<and>
   \<not> same_outcome
       (group_texts (Some 2) [(''a'', [[1, 2, 3, 4, 5 :: int]]), (''b'', [[6, 7, 8]])])
       (group_texts (Some 2) [(''b'', [[6, 7, 8]]), (''a'', [[1, 2, 3, 4, 5]])])"
proof -
  have a: "group_texts (Some 2) [(''a'', [[1, 2, 3, 4, 5 :: int]]), (''b'', [[6, 7, 8]])]
             = Inr [(''a'', [[1, 2], [3, 4]]), (''b'', [[6, 7], [8]])]"
    by code_simp
  have b: "group_texts (Some 2) [(''b'', [[6, 7, 8]]), (''a'', [[1, 2, 3, 4, 5 :: int]])]
             = Inr [(''b'', [[6, 7]]), (''a'', [[1, 2]])]"
    by code_simp
  show ?thesis
    unfolding a b by (simp add: is_dict_def dict_eq_def same_outcome_def doubleton_eq_iff)
qed

text \<open>
  C5, amended. For every binding of \<open>max_seq_length\<close> (none, zero and negative
  values included): two evaluations of group_texts on dicts that are equal, in whatever
  key order, and whose first keys hold the same number of tokens have the same outcome,
  that is, they raise the same exception or return equal dicts.
\<close>

theorem group_texts_equal_inputs:
  assumes d1: "is_dict examples" and d2: "is_dict examples'"
    and eq: "dict_eq examples examples'"
    and len: "first_total_length examples = first_total_length examples'"
  shows "same_outcome (group_texts block_size examples)
                      (group_texts block_size examples')"
proof (cases examples)
  case Nil
  with eq have "examples' = []" by (simp add: dict_eq_def)
  with Nil show ?thesis
    by (simp add: group_texts_def keys_def first_def same_outcome_def)
next
  case (Cons p rest)
  obtain k0 v0 where e: "examples = (k0, v0) # rest"
    using Cons by (cases p) simp
  from eq e have "examples' \<noteq> []" by (auto simp: dict_eq_def)
  then obtain k0' v0' rest' where e': "examples' = (k0', v0') # rest'"
    by (cases examples') auto
  have L: "length (concat v0') = length (concat v0)"
    using len first_total_length_entry[OF d1 e] first_total_length_entry[OF d2 e'] by simp
  have same: "dict_eq (map h examples) (map h examples')" for h :: "'a \<times> 'b list list \<Rightarrow> 'a \<times> 'b list list"
    using eq by (rule dict_eq_map_values)
  show ?thesis
    unfolding group_texts_by_first_entry[OF d1 e] group_texts_by_first_entry[OF d2 e'] L
    by (simp add: same_outcome_def same split: sum.splits)
qed

theorem group_texts_equal_inputs_witness:
  "is_dict [(''input_ids'', [[1, 2, 3 :: int], [4, 5]]), (''attention_mask'', [[1, 1, 1], [1, 1]])] \<and>
   is_dict [(''attention_mask'', [[1, 1, 1], [1, 1]]), (''input_ids'', [[1, 2, 3 :: int], [4, 5]])] \<and>
   dict_eq [(''input_ids'', [[1, 2, 3 :: int], [4, 5]]), (''attention_mask'', [[1, 1, 1], [1, 1]])]
           [(''attention_mask'', [[1, 1, 1], [1, 1]]), (''input_ids'', [[1, 2, 3], [4, 5]])] \<and>
   first_total_length
       [(''input_ids'', [[1, 2, 3 :: int], [4, 5]]), (''attention_mask'', [[1, 1, 1], [1, 1]])]
     = first_total_length
       [(''attention_mask'', [[1, 1, 1], [1, 1]]), (''input_ids'', [[1, 2, 3 :: int], [4, 5]])] \<and>
   same_outcome
     (group_texts (Some 2)
        [(''input_ids'', [[1, 2, 3 :: int], [4, 5]]), (''attention_mask'', [[1, 1, 1], [1, 1]])])
     (group_texts (Some 2)
        [(''attention_mask'', [[1, 1, 1], [1, 1]]), (''input_ids'', [[1, 2, 3], [4, 5]])])"
proof -
  have d1: "is_dict [(''input_ids'', [[1, 2, 3 :: int], [4, 5]]), (''attention_mask'', [[1, 1, 1], [1, 1]])]"
    by (simp add: is_dict_def)
  have d2: "is_dict [(''attention_mask'', [[1, 1, 1], [1, 1]]), (''input_ids'', [[1, 2, 3 :: int], [4, 5]])]"
    by (simp add: is_dict_def)
  have eq: "dict_eq [(''input_ids'', [[1, 2, 3 :: int], [4, 5]]), (''attention_mask'', [[1, 1, 1], [1, 1]])]
           [(''attention_mask'', [[1, 1, 1], [1, 1]]), (''input_ids'', [[1, 2, 3], [4, 5]])]"
    by (simp add: dict_eq_def doubleton_eq_iff)
  have len: "first_total_length
       [(''input_ids'', [[1, 2, 3 :: int], [4, 5]]), (''attention_mask'', [[1, 1, 1], [1, 1]])]
     = first_total_length
       [(''attention_mask'', [[1, 1, 1], [1, 1]]), (''input_ids'', [[1, 2, 3 :: int], [4, 5]])]"
    by (simp add: first_total_length_def first_def keys_def getitem_def sum_lists_def)
  show ?thesis
    using d1 d2 eq len group_texts_equal_inputs[OF d1 d2 eq len, of "Some 2"] by simp
qed

section \<open>Claim about the patch\<close>

text \<open>
  C8. The patch keeps the number of lines of a file, and on each line: if the text
  \<open>from collections import\<close> does not occur in it, the line is unchanged; if it
  occurs, the line is \<open>pre\<close>, the text, \<open>post\<close> with no occurrence of the text that
  starts within \<open>pre\<close>, and the new line is \<open>pre\<close>, \<open>from collections.abc import\<close>,
  \<open>post\<close>: the leftmost occurrence is replaced and every other character stays.
\<close>

theorem sed_patch_effect:
  "length (sed_file ls) = length ls \<and>
   (\<forall>i < length ls.
      (\<not> sublist pattern (ls ! i) \<longrightarrow> sed_file ls ! i = ls ! i) \<and>
      (sublist pattern (ls ! i) \<longrightarrow>
         (\<exists>pre post. ls ! i = pre @ pattern @ post \<and>
                      \<not> sublist pattern (pre @ butlast pattern) \<and>
                      sed_file ls ! i = pre @ replacement @ post)))"
proof -
  have ne: "pattern \<noteq> []" by (simp add: pattern_def)
  show ?thesis
    using substitute_no_match[of pattern _ replacement]
      substitute_match[OF ne, of _ replacement]
    by (simp add: sed_file_def sed_line_def)
qed

theorem sed_patch_effect_witness:
  "sed_file [''from collections import Mapping'', ''import re'',
             ''  from collections import (from collections import'']
   = [''from collections.abc import Mapping'', ''import re'',
      ''  from collections.abc import (from collections import'']
   \<and> length (sed_file [''from collections import Mapping'', ''import re'',
             ''  from collections import (from collections import'']) = 3"
  using sed_patch_effect[of "[''from collections import Mapping'', ''import re'',
             ''  from collections import (from collections import'']"]
  by (simp add: sed_file_def sed_line_def pattern_def replacement_def)

section \<open>Claims about the notebook\<close>

lemmas cells_defs =
  cells_setup_def cells_model_configuration_def cells_tokenizer_def cells_split_def
  cells_preprocess_def

lemmas library_defs =
  read_def load_dataset_def select_def len_def setitem_def keys_def getitem_def
  name_defined_def

text \<open>
  C1. The claim is that the tokenizer is trained before it is saved. The notebook has no
  training call in any cell: from every state of the kernel, running the cells down to
  \<open>tokenizer.save\<close> returns, the global \<open>tokenizer\<close> is then the tokenizer as
  \<open>ByteLevelBPETokenizer()\<close> made it, and the file \<open>tokenizer.json\<close> in the model
  directory holds the empty BPE model.
\<close>

theorem saved_tokenizer_is_untrained:
  "Train_tokenizer \<notin> set notebook \<and>
   (\<exists>g'. run lib (cells_setup @ cells_model_configuration @ cells_tokenizer) g = Inr g' \<and>
          tokenizer g' = Some (Byte_level_bpe Empty_bpe) \<and>
          files g' ''roberta-base-pretrained-ko/tokenizer.json'' = Some (Tokenizer_json Empty_bpe))"
  by (simp add: notebook_def cells_defs read_def)

text \<open>
  C6. Let the library cut 5% of the corpus at row \<open>b\<close>, with at least 1000 rows before
  \<open>b\<close> and 10000 from \<open>b\<close> on. Then the notebook runs to its end; the statements run
  are those of the notebook in their order; among them the steps on the data are the
  three loads, the map of \<open>tokenize_function\<close> over the raw dataset and the map of
  \<open>group_texts\<close> over the tokenized one, in this order; the map of \<open>group_texts\<close> is
  the last statement; at the end each split holds raw rows, tokenized, then chunked; and
  the only functions defined are \<open>batch_iterator\<close>, \<open>tokenize_function\<close> and
  \<open>group_texts\<close>.
\<close>

theorem pipeline_order:
  assumes "pct_to_abs lib 5 (num_rows lib) = b" and "1000 \<le> b" and "b + 10000 \<le> num_rows lib"
  shows "\<exists>g'. run lib notebook g = Inr g' \<and>
      executed g' = executed g @ notebook \<and>
      filter pipeline_step notebook =
        [Load_raw_dataset, Load_split ''train'' (From_percent 5),
         Load_split ''validation'' (To_percent 5),
         Map_raw ''tokenize_function'', Map_tokenized ''group_texts''] \<and>
      last notebook = Map_tokenized ''group_texts'' \<and>
      tokenized_datasets g' = Some
        [(''train'',
            Mapped ''group_texts'' (Mapped ''tokenize_function'' (Raw (b, b + 10000)))),
         (''validation'',
            Mapped ''group_texts'' (Mapped ''tokenize_function'' (Raw (0, 1000))))] \<and>
      defined g' = defined g @ [''batch_iterator'', ''tokenize_function'', ''group_texts'']"
  using assms by (simp add: notebook_def cells_defs library_defs Let_def)

theorem pipeline_order_witness:
  "\<exists>g'. run \<lparr>num_rows = 3675420, pct_to_abs = (\<lambda>p n. p * n div 100)\<rparr> notebook fresh_kernel
           = Inr g' \<and>
      executed g' = notebook \<and>
      filter pipeline_step notebook =
        [Load_raw_dataset, Load_split ''train'' (From_percent 5),
         Load_split ''validation'' (To_percent 5),
         Map_raw ''tokenize_function'', Map_tokenized ''group_texts''] \<and>
      last notebook = Map_tokenized ''group_texts'' \<and>
      tokenized_datasets g' = Some
        [(''train'',
            Mapped ''group_texts'' (Mapped ''tokenize_function'' (Raw (183771, 193771)))),
         (''validation'',
            Mapped ''group_texts'' (Mapped ''tokenize_function'' (Raw (0, 1000))))] \<and>
      defined g' = [''batch_iterator'', ''tokenize_function'', ''group_texts'']"
  using pipeline_order[of "\<lparr>num_rows = 3675420, pct_to_abs = (\<lambda>p n. p * n div 100)\<rparr>"
      183771 fresh_kernel]
  by (simp add: fresh_kernel_def)

text \<open>
  C7. For every pair of strings, binding them to \<open>language\<close> and \<open>model_config\<close> and
  running the cell of \<open>model_dir\<close> binds \<open>model_dir\<close> to the configuration name, then
  \<open>-pretrained-\<close>, then the language code. The notebook's own cells, from every state
  of the kernel, bind it to \<open>roberta-base-pretrained-ko\<close> and make that directory.
\<close>

theorem model_dir_value:
  "(\<exists>g'. run lib [Set_language l, Set_model_config mc, Set_model_dir] g = Inr g' \<and>
          model_dir g' = Some (mc @ ''-pretrained-'' @ l)) \<and>
   (\<exists>g'. run lib (cells_setup @ cells_model_configuration) g = Inr g' \<and>
          model_dir g' = Some ''roberta-base-pretrained-ko'' \<and>
          files g' ''roberta-base-pretrained-ko'' = Some Directory)"
  by (simp add: cells_defs read_def)

text \<open>
  C9. Let the library's row index for 5% of the corpus lie within the corpus. Then the
  cells down to the second \<open>load_dataset(..., split=...)\<close> return, and the rows then
  held by \<open>raw_dataset["train"]\<close> and \<open>raw_dataset["validation"]\<close> are disjoint,
  together are the rows of the whole corpus, and their numbers add up to its size.
\<close>

theorem resplit_partitions:
  assumes "pct_to_abs lib 5 (num_rows lib) \<le> num_rows lib"
  shows "\<exists>g' d tr va.
     run lib (cells_setup @ cells_model_configuration @ cells_tokenizer @ cells_split) g = Inr g' \<and>
     raw_dataset g' = Some d \<and>
     getitem d ''train'' = Inr tr \<and> getitem d ''validation'' = Inr va \<and>
     row_set tr \<inter> row_set va = {} \<and>
     row_set tr \<union> row_set va = row_set (0, num_rows lib) \<and>
     len tr + len va = num_rows lib"
  using assms by (auto simp add: cells_defs library_defs row_set_def Let_def)

theorem resplit_partitions_witness:
  "\<exists>g' d.
     run \<lparr>num_rows = 3675420, pct_to_abs = (\<lambda>p n. p * n div 100)\<rparr>
       (cells_setup @ cells_model_configuration @ cells_tokenizer @ cells_split) fresh_kernel
       = Inr g' \<and>
     raw_dataset g' = Some d \<and>
     getitem d ''train'' = Inr (183771, 3675420) \<and>
     getitem d ''validation'' = Inr (0, 183771) \<and>
     len (183771, 3675420) + len (0, 183771) = 3675420"
  using resplit_partitions[of "\<lparr>num_rows = 3675420, pct_to_abs = (\<lambda>p n. p * n div 100)\<rparr>"
      fresh_kernel]
  by (simp add: cells_defs library_defs fresh_kernel_def Let_def)

end
